theory Spec2Isabelle
  imports Complex_Main
begin

section \<open>Power-law prediction script: the model\<close>

text \<open>
  The program is \<^verbatim>\<open>predictions.py\<close>: it reads columns of numbers, fits
  \<open>y = a * x ** b\<close> to each target column against the column \<^verbatim>\<open>log generation\<close>,
  and then evaluates the fitted curves at loads typed by the user.

  Numbers: the columns, the typed load and the values inside the least-squares fit are
  finite and modelled as \<^typ>\<open>real\<close>; rounding is not modelled. The range of IEEE doubles
  is modelled where the script's results leave it: \<^verbatim>\<open>np.exp\<close> and the product in
  \<^verbatim>\<open>calc\<close> answer an infinity beyond the largest double and 0.0 below the smallest,
  and \<^verbatim>\<open>math.pow\<close> raises OverflowError beyond the largest double.

  Exceptions are values: a function that can raise returns \<open>error + 'a\<close>, with \<open>Inl\<close>
  the exception that leaves the function.
\<close>

datatype error =
    KeyError      \<comment> \<open>a dict is indexed with a key it does not hold\<close>
  | TypeError     \<comment> \<open>\<^verbatim>\<open>np.polyfit\<close>: expected non-empty vector for x\<close>
  | ValueError    \<comment> \<open>\<^verbatim>\<open>math.pow\<close>: math domain error; numpy: operands could not be broadcast\<close>
  | OverflowError \<comment> \<open>\<^verbatim>\<open>math.pow\<close>: math range error\<close>
  | IndexError    \<comment> \<open>numpy: boolean index did not match the indexed array\<close>
  | LinAlgError   \<comment> \<open>\<^verbatim>\<open>lstsq\<close>: SVD did not converge (the matrix holds NaN)\<close>
  | EOFError      \<comment> \<open>\<^verbatim>\<open>input()\<close> at the end of the input\<close>

text \<open>
  A double that a computation of the script can answer: a finite number, an infinity or
  NaN.
\<close>

datatype pyfloat = Fin real | PosInf | NegInf | NaN

text \<open>
  The largest double, the smallest positive normal double, and half the smallest
  positive subnormal double: a result of that size or smaller is rounded to 0.0.
\<close>

definition max_float :: real where
  "max_float = 2 ^ 1024 - 2 ^ 971"

definition min_normal :: real where
  "min_normal = 1 / 2 ^ 1022"

definition underflow_bound :: real where
  "underflow_bound = 1 / 2 ^ 1075"

text \<open>
  The double that an operation answers when its exact result is \<open>r\<close>, as far as the range
  goes: an infinity beyond the largest double, 0.0 at the underflow bound, \<open>r\<close> itself in
  between.
\<close>

definition round_range :: "real \<Rightarrow> pyfloat" where
  "round_range r =
     (if max_float < r then PosInf
      else if r < - max_float then NegInf
      else if \<bar>r\<bar> \<le> underflow_bound then Fin 0
      else Fin r)"

text \<open>\<open>r\<close> is 0 or lies in the range of the normal doubles.\<close>

definition representable :: "real \<Rightarrow> bool" where
  "representable r = (r = 0 \<or> (min_normal \<le> \<bar>r\<bar> \<and> \<bar>r\<bar> \<le> max_float))"

type_synonym fit_result = "pyfloat \<times> real"
type_synonym columns = "string \<rightharpoonup> real list"
type_synonym coeff_table = "string \<rightharpoonup> fit_result"

subsection \<open>Library functions the script calls\<close>

text \<open>
  \<^verbatim>\<open>np.polyfit(u, v, 1)\<close> in exact arithmetic. numpy raises TypeError on an empty
  vector, scales each column of the Vandermonde matrix \<open>[u, 1]\<close> by its Euclidean norm
  and hands the scaled system to \<^verbatim>\<open>lstsq\<close>, which answers the least-squares solution,
  the one of minimum norm when the matrix has rank 1 (numpy then only warns, with
  RankWarning). For degree 1 that is:
  \<^item> the \<open>u\<close> not all equal: the normal equations' solution (slope, intercept);
  \<^item> all \<open>u\<close> equal to \<open>c \<noteq> 0\<close>: both scaled columns are parallel, the minimum-norm
    solution splits the mean \<open>m\<close> of \<open>v\<close> evenly: slope \<open>m / (2 c)\<close>, intercept \<open>m / 2\<close>;
  \<^item> all \<open>u\<close> equal to 0: the first column's norm is 0, the scaled matrix holds 0/0
    and \<^verbatim>\<open>lstsq\<close> raises LinAlgError.
  The result is (slope, intercept), the order of numpy's coefficient array.
\<close>

definition polyfit1 :: "real list \<Rightarrow> real list \<Rightarrow> error + (real \<times> real)" where
  "polyfit1 u v =
     (if u = [] then Inl TypeError
      else if length u \<noteq> length v then Inl TypeError
      else
        let n = real (length u);
            su = sum_list u;
            sv = sum_list v;
            suu = sum_list (map (\<lambda>p. p * p) u);
            suv = sum_list (map (\<lambda>(p, q). p * q) (zip u v));
            d = n * suu - su * su
        in if d \<noteq> 0 then
             (let b = (n * suv - su * sv) / d in Inr (b, (sv - b * su) / n))
           else if su = 0 then Inl LinAlgError
           else Inr (sv / (2 * su), sv / (2 * n)))"

text \<open>\<^verbatim>\<open>np.exp\<close> on a finite argument: it overflows to \<open>inf\<close> and underflows to 0.0.\<close>

definition np_exp :: "real \<Rightarrow> pyfloat" where
  "np_exp t = round_range (exp t)"

text \<open>
  \<^verbatim>\<open>math.pow(x, y)\<close> on finite arguments. \<open>pow_exact\<close> is the real power where it is
  defined. \<^verbatim>\<open>math.pow\<close> raises ValueError (math domain error) for \<open>0\<close> to a negative
  power and for a negative base with a fractional exponent, and OverflowError (math
  range error) when the power exceeds the largest double; a power that underflows is
  answered as 0.0 without an error.
\<close>

definition pow_exact :: "real \<Rightarrow> real \<Rightarrow> real" where
  "pow_exact x y = (if y = of_int \<lfloor>y\<rfloor> then x powi \<lfloor>y\<rfloor> else x powr y)"

definition pow_value :: "real \<Rightarrow> real \<Rightarrow> real" where
  "pow_value x y = (if \<bar>pow_exact x y\<bar> \<le> underflow_bound then 0 else pow_exact x y)"

definition math_pow :: "real \<Rightarrow> real \<Rightarrow> error + real" where
  "math_pow x y =
     (if x = 0 \<and> y < 0 then Inl ValueError
      else if x < 0 \<and> y \<noteq> of_int \<lfloor>y\<rfloor> then Inl ValueError
      else if max_float < \<bar>pow_exact x y\<bar> then Inl OverflowError
      else Inr (pow_value x y))"

text \<open>
  The product \<^verbatim>\<open>a * p\<close> of a stored coefficient and a finite power: no exception, an
  infinity on overflow, NaN for an infinity times 0.
\<close>

fun py_mul :: "pyfloat \<Rightarrow> real \<Rightarrow> pyfloat" where
  "py_mul (Fin a) p = round_range (a * p)"
| "py_mul PosInf p = (if 0 < p then PosInf else if p < 0 then NegInf else NaN)"
| "py_mul NegInf p = (if 0 < p then NegInf else if p < 0 then PosInf else NaN)"
| "py_mul NaN p = NaN"

text \<open>\<^verbatim>\<open>str.lower()\<close> on ASCII letters; every other character is kept.\<close>

definition lower_char :: "char \<Rightarrow> char" where
  "lower_char c =
     (let n = (of_char c :: nat) in if 65 \<le> n \<and> n \<le> 90 then char_of (n + 32) else c)"

definition lower :: "string \<Rightarrow> string" where
  "lower s = map lower_char s"

text \<open>\<^verbatim>\<open>sub in s\<close> on strings: \<open>sub\<close> occurs in \<open>s\<close> as a contiguous block.\<close>

fun starts_with :: "string \<Rightarrow> string \<Rightarrow> bool" where
  "starts_with [] s = True"
| "starts_with (c # cs) [] = False"
| "starts_with (c # cs) (d # ds) = (c = d \<and> starts_with cs ds)"

fun contains :: "string \<Rightarrow> string \<Rightarrow> bool" where
  "contains sub [] = (sub = [])"
| "contains sub (d # ds) = (starts_with sub (d # ds) \<or> contains sub ds)"

subsection \<open>\<^verbatim>\<open>power_law_fit\<close>\<close>

text \<open>
  \<^verbatim>\<open>mask = (x > 0) & (y > 0)\<close>, then \<^verbatim>\<open>x[mask]\<close> and \<^verbatim>\<open>y[mask]\<close>: the pairs with both
  coordinates positive, in order.
\<close>

definition positive_pair :: "real \<times> real \<Rightarrow> bool" where
  "positive_pair p = (fst p > 0 \<and> snd p > 0)"

definition masked :: "real list \<Rightarrow> real list \<Rightarrow> (real \<times> real) list" where
  "masked x y = filter positive_pair (zip x y)"

text \<open>
  Arrays of different lengths: numpy broadcasts a length-1 operand of \<open>&\<close>, so the mask
  has the length of the other array. An empty mask selects nothing from either array
  and \<^verbatim>\<open>np.polyfit\<close> raises TypeError on the empty vectors; a longer mask is refused as
  a boolean index of the length-1 array (IndexError). Any other pair of different
  lengths cannot be broadcast (ValueError).
\<close>

definition power_law_fit :: "real list \<Rightarrow> real list \<Rightarrow> error + fit_result" where
  "power_law_fit x y =
     (if length x \<noteq> length y then
        (if (length x = 1 \<and> y = []) \<or> (x = [] \<and> length y = 1) then Inl TypeError
         else if length x = 1 \<or> length y = 1 then Inl IndexError
         else Inl ValueError)
      else
        let log_x = map (\<lambda>p. ln (fst p)) (masked x y);
            log_y = map (\<lambda>p. ln (snd p)) (masked x y)
        in case polyfit1 log_x log_y of
             Inl e \<Rightarrow> Inl e
           | Inr (b, log_a) \<Rightarrow> Inr (np_exp log_a, b))"

subsection \<open>\<^verbatim>\<open>main\<close>: building the coefficient table\<close>

datatype notice = MissingColumn string

text \<open>
  The loop over \<^verbatim>\<open>targets\<close>: a name that is not a column prints a notice and is
  skipped; otherwise the fit is stored under the lower-cased name. Nothing catches an
  exception of \<^verbatim>\<open>power_law_fit\<close>, so it leaves the loop and \<^verbatim>\<open>main\<close>.
\<close>

fun fit_targets ::
  "real list \<Rightarrow> columns \<Rightarrow> string list \<Rightarrow> coeff_table \<times> notice list
     \<Rightarrow> error + (coeff_table \<times> notice list)" where
  "fit_targets x data [] (coeff, out) = Inr (coeff, out)"
| "fit_targets x data (name # rest) (coeff, out) =
     (case data name of
        None \<Rightarrow> fit_targets x data rest (coeff, out @ [MissingColumn name])
      | Some y \<Rightarrow>
          (case power_law_fit x y of
             Inl e \<Rightarrow> Inl e
           | Inr ab \<Rightarrow> fit_targets x data rest (coeff(lower name \<mapsto> ab), out)))"

text \<open>
  \<^verbatim>\<open>x = data[indep]\<close> comes first and raises KeyError when the column is missing. The
  script fixes the column name and the target list; they are parameters here and
  \<open>main_coeff\<close> is the script's instance.
\<close>

definition build_coeff ::
  "columns \<Rightarrow> string \<Rightarrow> string list \<Rightarrow> error + (coeff_table \<times> notice list)" where
  "build_coeff data indep targets =
     (case data indep of
        None \<Rightarrow> Inl KeyError
      | Some x \<Rightarrow> fit_targets x data targets (Map.empty, []))"

definition main_targets :: "string list" where
  "main_targets = [''RX'', ''TX'', ''Read'', ''Write'', ''CPU load'']"

definition main_coeff :: "columns \<Rightarrow> error + (coeff_table \<times> notice list)" where
  "main_coeff data = build_coeff data ''log generation'' main_targets"

subsection \<open>\<^verbatim>\<open>main\<close>: the prediction loop\<close>

definition calc :: "coeff_table \<Rightarrow> string \<Rightarrow> real \<Rightarrow> error + pyfloat" where
  "calc coeff y_name x_val =
     (case coeff y_name of
        None \<Rightarrow> Inl KeyError
      | Some (a, b) \<Rightarrow>
          (case math_pow x_val b of Inl e \<Rightarrow> Inl e | Inr p \<Rightarrow> Inr (py_mul a p)))"

definition suffix_of :: "string \<Rightarrow> string" where
  "suffix_of key =
     (if contains ''cpu'' key then '' CPU''
      else if contains ''read'' key \<or> contains ''write'' key
              \<or> contains ''rx'' key \<or> contains ''tx'' key then '' MB/s''
      else '''')"

text \<open>
  One turn's \<^verbatim>\<open>for name in targets\<close>: the printed lines, as (key, value, suffix), or the
  exception that \<^verbatim>\<open>calc\<close> raised.
\<close>

fun predict_all ::
  "coeff_table \<Rightarrow> string list \<Rightarrow> real \<Rightarrow> error + (string \<times> pyfloat \<times> string) list" where
  "predict_all coeff [] x_val = Inr []"
| "predict_all coeff (name # rest) x_val =
     (let key = lower name in
      if coeff key = None then predict_all coeff rest x_val
      else case calc coeff key x_val of
             Inl e \<Rightarrow> Inl e
           | Inr y_val \<Rightarrow>
               (case predict_all coeff rest x_val of
                  Inl e \<Rightarrow> Inl e
                | Inr out \<Rightarrow> Inr ((key, y_val, suffix_of key) # out)))"

datatype event = Predicted real "(string \<times> pyfloat \<times> string) list" | BadInput

definition replace_comma :: "string \<Rightarrow> string" where
  "replace_comma raw = map (\<lambda>c. if c = CHR '','' then CHR ''.'' else c) raw"

text \<open>
  The \<^verbatim>\<open>while True\<close> loop over the lines the user types. \<open>to_float\<close> is Python's
  \<^verbatim>\<open>float()\<close> on a string, \<open>None\<close> where it raises ValueError: only that call stands
  inside the \<^verbatim>\<open>try\<close>. An empty line ends the loop. The load is a finite number.
\<close>

fun serve ::
  "(string \<Rightarrow> real option) \<Rightarrow> coeff_table \<Rightarrow> string list \<Rightarrow> string list \<Rightarrow> error + event list" where
  "serve to_float coeff targets [] = Inl EOFError"
| "serve to_float coeff targets (raw # more) =
     (if raw = [] then Inr []
      else case to_float (replace_comma raw) of
             None \<Rightarrow>
               (case serve to_float coeff targets more of
                  Inl e \<Rightarrow> Inl e
                | Inr evs \<Rightarrow> Inr (BadInput # evs))
           | Some x_val \<Rightarrow>
               (case predict_all coeff targets x_val of
                  Inl e \<Rightarrow> Inl e
                | Inr out \<Rightarrow>
                    (case serve to_float coeff targets more of
                       Inl e \<Rightarrow> Inl e
                     | Inr evs \<Rightarrow> Inr (Predicted x_val out # evs))))"

text \<open>
  \<^verbatim>\<open>main\<close> as a whole: \<open>data\<close> is what \<^verbatim>\<open>read_csv\<close> returned and \<open>typed\<close> the lines
  the user types. The result is what was reported (notices, then one event per turn) or
  the exception that ended the script. The table of coefficients and the banners that
  the script prints besides carry no further information and are left out.
\<close>

definition main ::
  "columns \<Rightarrow> (string \<Rightarrow> real option) \<Rightarrow> string list \<Rightarrow> error + (notice list \<times> event list)" where
  "main data to_float typed =
     (case main_coeff data of
        Inl e \<Rightarrow> Inl e
      | Inr (coeff, notes) \<Rightarrow>
          (case serve to_float coeff main_targets typed of
             Inl e \<Rightarrow> Inl e
           | Inr evs \<Rightarrow> Inr (notes, evs)))"

section \<open>Least squares on exact data\<close>

text \<open>
  The denominator of the normal equations is \<open>n\<close> times the sum of squared deviations
  from the mean, so it vanishes only when all abscissae are equal.
\<close>

lemma sum_sq_dev:
  fixes u :: "real list"
  shows "sum_list (map (\<lambda>p. (p - m) * (p - m)) u)
       = sum_list (map (\<lambda>p. p * p) u) - 2 * m * sum_list u + real (length u) * m * m"
  by (induction u) (simp_all add: algebra_simps)

lemma variance_form:
  fixes u :: "real list"
  assumes "u \<noteq> []"
  shows "real (length u) * sum_list (map (\<lambda>p. p * p) u) - sum_list u * sum_list u
       = real (length u) * sum_list (map (\<lambda>p. (p - sum_list u / real (length u)) * (p - sum_list u / real (length u))) u)"
proof -
  define n where "n = real (length u)"
  define m where "m = sum_list u / n"
  define q where "q = sum_list (map (\<lambda>p. p * p) u)"
  have n: "n \<noteq> 0" using assms by (simp add: n_def)
  then have nm: "n * m = sum_list u" by (simp add: m_def)
  have "n * (q - 2 * m * sum_list u + n * m * m) = n * q - 2 * (n * m) * sum_list u + (n * m) * (n * m)"
    by (simp add: algebra_simps)
  also have "\<dots> = n * q - sum_list u * sum_list u"
    unfolding nm by simp
  finally show ?thesis
    unfolding sum_sq_dev n_def [symmetric] m_def [symmetric] q_def [symmetric] by simp
qed

lemma sum_sq_zero:
  fixes f :: "real \<Rightarrow> real"
  shows "sum_list (map (\<lambda>p. f p * f p) u) = 0 \<Longrightarrow> t \<in> set u \<Longrightarrow> f t = 0"
proof (induction u)
  case Nil
  then show ?case by simp
next
  case (Cons a u)
  have nn: "0 \<le> sum_list (map (\<lambda>p. f p * f p) u)"
    by (rule sum_list_nonneg) auto
  have "f a * f a + sum_list (map (\<lambda>p. f p * f p) u) = 0" using Cons.prems(1) by simp
  moreover have "0 \<le> f a * f a" by simp
  ultimately have "f a * f a = 0" and "sum_list (map (\<lambda>p. f p * f p) u) = 0"
    using nn by (simp_all add: add_nonneg_eq_0_iff)
  with Cons show ?case by auto
qed

lemma variance_nonzero:
  fixes u :: "real list"
  assumes "s \<in> set u" "t \<in> set u" "s \<noteq> t"
  shows "real (length u) * sum_list (map (\<lambda>p. p * p) u) - sum_list u * sum_list u \<noteq> 0"
proof
  assume z: "real (length u) * sum_list (map (\<lambda>p. p * p) u) - sum_list u * sum_list u = 0"
  have ne: "u \<noteq> []" using assms(1) by auto
  then have n: "real (length u) \<noteq> 0" by simp
  define m where "m = sum_list u / real (length u)"
  have "real (length u) * sum_list (map (\<lambda>p. (p - m) * (p - m)) u) = 0"
    using variance_form [OF ne] z unfolding m_def by linarith
  then have dev: "sum_list (map (\<lambda>p. (p - m) * (p - m)) u) = 0"
    using n by (simp only: mult_eq_0_iff) blast
  have "s - m = 0"
    by (rule sum_sq_zero [where f = "\<lambda>p. p - m", OF dev assms(1)])
  moreover have "t - m = 0"
    by (rule sum_sq_zero [where f = "\<lambda>p. p - m", OF dev assms(2)])
  ultimately show False using assms(3) by simp
qed

lemma sum_zip_map:
  fixes u :: "real list"
  shows "sum_list (map (\<lambda>(p, q). p * q) (zip u (map f u))) = sum_list (map (\<lambda>p. p * f p) u)"
  by (induction u) simp_all

lemma sum_affine:
  fixes u :: "real list"
  shows "sum_list (map (\<lambda>p. c + k * p) u) = real (length u) * c + k * sum_list u"
  by (induction u) (simp_all add: algebra_simps)

lemma sum_mul_affine:
  fixes u :: "real list"
  shows "sum_list (map (\<lambda>p. p * (c + k * p)) u) = c * sum_list u + k * sum_list (map (\<lambda>p. p * p) u)"
  by (induction u) (simp_all add: algebra_simps)

lemma polyfit1_line:
  fixes u :: "real list"
  assumes "s \<in> set u" "t \<in> set u" "s \<noteq> t"
  shows "polyfit1 u (map (\<lambda>p. c + k * p) u) = Inr (k, c)"
proof -
  let ?n = "real (length u)"
  let ?su = "sum_list u"
  let ?suu = "sum_list (map (\<lambda>p. p * p) u)"
  let ?d = "?n * ?suu - ?su * ?su"
  have ne: "u \<noteq> []" using assms(1) by auto
  then have n: "?n \<noteq> 0" by simp
  have d: "?d \<noteq> 0" by (rule variance_nonzero [OF assms])
  have num: "?n * (c * ?su + k * ?suu) - ?su * (?n * c + k * ?su) = k * ?d"
    by (simp add: algebra_simps)
  have slope: "(?n * (c * ?su + k * ?suu) - ?su * (?n * c + k * ?su)) / ?d = k"
    unfolding num using d by simp
  have icpt: "(?n * c + k * ?su - k * ?su) / ?n = c" using n by simp
  show ?thesis
    using ne d slope icpt
    by (simp add: polyfit1_def Let_def sum_zip_map sum_affine sum_mul_affine)
qed

section \<open>The range of doubles\<close>

lemma max_float_ge: "2 ^ 1023 \<le> max_float"
  by (simp add: max_float_def)

lemma max_float_pos: "0 < max_float"
  by (simp add: max_float_def)

lemma underflow_bound_pos: "0 < underflow_bound"
  by (simp add: underflow_bound_def)

lemma underflow_lt_min_normal: "underflow_bound < min_normal"
  by (simp add: underflow_bound_def min_normal_def)

lemma min_normal_le_one: "min_normal \<le> 1"
  by (simp add: min_normal_def)

lemma round_range_representable: "representable r \<Longrightarrow> round_range r = Fin r"
  using underflow_lt_min_normal underflow_bound_pos max_float_pos
  by (auto simp add: representable_def round_range_def)



lemma representable_moderate: "1 \<le> r \<Longrightarrow> r \<le> 1024 \<Longrightarrow> representable r"
proof -
  assume a: "1 \<le> r" "r \<le> 1024"
  have "(1024::real) \<le> 2 ^ 1023" by simp
  with a max_float_ge min_normal_le_one show ?thesis
    by (simp add: representable_def)
qed

lemma np_exp_ln: "0 < a \<Longrightarrow> representable a \<Longrightarrow> np_exp (ln a) = Fin a"
  by (simp add: np_exp_def round_range_representable)

section \<open>The fit on noise-free power-law samples\<close>

lemma masked_all_pos:
  "\<forall>t\<in>set x. 0 < t \<Longrightarrow> \<forall>t\<in>set x. 0 < f t \<Longrightarrow> masked x (map f x) = map (\<lambda>t. (t, f t)) x"
  by (induction x) (simp_all add: masked_def positive_pair_def)

lemma ln_power_law:
  "0 < (a::real) \<Longrightarrow> 0 < t \<Longrightarrow> ln (a * t powr b) = ln a + b * ln t"
  by (simp add: ln_mult)

text \<open>
  Samples that all lie on \<open>y = a * x ** b\<close>, with positive \<open>x\<close> of which two differ and
  \<open>a\<close> in the range of doubles: the fit returns exactly \<open>(a, b)\<close>.
\<close>

lemma power_law_fit_exact:
  assumes pos: "\<forall>t\<in>set x. 0 < t" and a: "0 < a" and ra: "representable a"
    and st: "s \<in> set x" "t \<in> set x" "s \<noteq> t"
  shows "power_law_fit x (map (\<lambda>t. a * t powr b) x) = Inr (Fin a, b)"
proof -
  let ?f = "\<lambda>t. a * t powr b"
  have fpos: "\<forall>t\<in>set x. 0 < ?f t" using pos a by (auto intro!: mult_pos_pos)
  have m: "masked x (map ?f x) = map (\<lambda>t. (t, ?f t)) x"
    by (rule masked_all_pos [OF pos fpos])
  have lx: "map (\<lambda>p. ln (fst p)) (masked x (map ?f x)) = map ln x"
    unfolding m by (simp add: comp_def)
  have ly: "map (\<lambda>p. ln (snd p)) (masked x (map ?f x)) = map (\<lambda>p. ln a + b * p) (map ln x)"
  proof -
    have "\<forall>t\<in>set x. ln (a * t powr b) = ln a + b * ln t"
      using pos a ln_power_law by blast
    then show ?thesis unfolding m by (simp add: comp_def)
  qed
  have s0: "0 < s" and t0: "0 < t" using pos st by auto
  have "ln s \<noteq> ln t" using st(3) s0 t0 by simp
  moreover have "ln s \<in> set (map ln x)" "ln t \<in> set (map ln x)" using st by auto
  ultimately have pf: "polyfit1 (map ln x) (map (\<lambda>p. ln a + b * p) (map ln x)) = Inr (b, ln a)"
    by (rule polyfit1_line [rotated 2])
  have "power_law_fit x (map ?f x) = Inr (np_exp (ln a), b)"
    unfolding power_law_fit_def Let_def lx ly pf by simp
  then show ?thesis using a ra by (simp add: np_exp_ln)
qed

section \<open>Worked examples of the fit\<close>

text \<open>
  Runs of \<^verbatim>\<open>power_law_fit\<close> and of the build loop on small inputs, used below.
\<close>

lemma fit_decay_example: "power_law_fit [2, 4] [4, 2] = Inr (Fin 8, -1)"
proof -
  have "power_law_fit [2, 4] (map (\<lambda>t. 8 * t powr (-1)) [2, 4]) = Inr (Fin 8, -1)"
    by (rule power_law_fit_exact [where s = 2 and t = 4]) (simp_all add: representable_moderate)
  moreover have "(2::real) powr (-1) = 1/2" "(4::real) powr (-1) = 1/4"
    by (simp_all add: powr_minus_divide)
  ultimately show ?thesis by simp
qed

lemma fit_square_example: "power_law_fit [2, 4] [4, 16] = Inr (Fin 1, 2)"
proof -
  have "power_law_fit [2, 4] (map (\<lambda>t. 1 * t powr 2) [2, 4]) = Inr (Fin 1, 2)"
    by (rule power_law_fit_exact [where s = 2 and t = 4]) (simp_all add: representable_moderate)
  then show ?thesis by simp
qed

lemma fit_zero_column: "power_law_fit [2, 4] [0, 0] = Inl TypeError"
  by (simp add: power_law_fit_def polyfit1_def masked_def positive_pair_def)

lemma lower_main_targets:
  "lower ''RX'' = ''rx''" "lower ''TX'' = ''tx''" "lower ''Read'' = ''read''"
  "lower ''Write'' = ''write''" "lower ''CPU load'' = ''cpu load''"
  by code_simp+

lemma main_coeff_example:
  "main_coeff [''log generation'' \<mapsto> [2, 4], ''RX'' \<mapsto> [4, 2]]
     = Inr ([''rx'' \<mapsto> (Fin 8, -1)],
            [MissingColumn ''TX'', MissingColumn ''Read'', MissingColumn ''Write'',
             MissingColumn ''CPU load''])"
  by (simp add: main_coeff_def build_coeff_def main_targets_def fit_decay_example lower_main_targets)

subsection \<open>Fewer than two distinct abscissae\<close>

text \<open>
  With one surviving sample, or with several that share one \<open>x\<close>, the matrix has
  rank 1 and \<^verbatim>\<open>np.polyfit\<close> answers the minimum-norm solution.
\<close>

lemma polyfit1_single: "c \<noteq> 0 \<Longrightarrow> polyfit1 [c] [v] = Inr (v / (2 * c), v / 2)"
  by (simp add: polyfit1_def Let_def)

lemma polyfit1_two_equal: "c \<noteq> 0 \<Longrightarrow> polyfit1 [c, c] [v, v] = Inr (v / (2 * c), v / 2)"
proof -
  assume c: "c \<noteq> 0"
  have d: "2 * (c * c + c * c) - (c + c) * (c + c) = 0" by (simp add: algebra_simps)
  have su: "c + c \<noteq> 0" using c by simp
  have q: "(v + v) / (2 * (c + c)) = v / (2 * c)" by (simp add: field_simps)
  show ?thesis using d su q by (simp add: polyfit1_def Let_def)
qed

lemma ln4: "ln (4::real) = 2 * ln 2"
proof -
  have "ln ((2::real) ^ 2) = real 2 * ln 2" by (rule ln_realpow)
  then show ?thesis by simp
qed

lemma sample_pos: "0 < 3 * (2::real) powr (3/2)" by simp

lemma exp_half_ln: "0 < (y::real) \<Longrightarrow> exp (ln y / 2) = sqrt y"
proof -
  assume y: "0 < y"
  have "y powr (1/2) = exp (ln y / 2)" using y by (simp add: powr_def)
  moreover have "y powr (1/2) = sqrt y" using y by (simp add: powr_half_sqrt)
  ultimately show ?thesis by simp
qed

lemma two_powr_three_halves: "(2::real) powr (3/2) = sqrt 8"
proof -
  have "(2::real) powr (3/2) = sqrt (2 powr 3)" by (rule powr_half_sqrt_powr) simp
  moreover have "(2::real) powr 3 = 2 ^ 3" by (rule powr_numeral) simp
  ultimately show ?thesis by simp
qed

lemma sample_lower_bound: "1 \<le> sqrt (3 * (2::real) powr (3/2))"
proof -
  have "(1::real) \<le> 2 powr (3/2)" by (rule ge_one_powr_ge_zero) simp_all
  then have "(1::real) \<le> 3 * 2 powr (3/2)" by simp
  then show ?thesis by simp
qed

lemma sample_bound: "sqrt (3 * (2::real) powr (3/2)) < 59/20"
proof -
  have "sqrt (8::real) < 29/10"
    by (rule real_less_lsqrt) (simp_all add: power2_eq_square)
  then have "3 * (2::real) powr (3/2) < (59/20)\<^sup>2"
    unfolding two_powr_three_halves by (simp add: power2_eq_square)
  then show ?thesis by (rule real_less_lsqrt [rotated 1]) simp
qed

section \<open>The fit\<close>

subsection \<open>Noise-free samples\<close>

text \<open>
  Claim C1, as the code has it. For samples generated exactly by \<open>y = 3 * x ** 1.5\<close>,
  all \<open>x\<close> positive and at least two of them different, \<^verbatim>\<open>power_law_fit\<close> returns
  the generating coefficients: \<open>a = 3\<close> and \<open>b = 1.5\<close>, exactly in real arithmetic.
\<close>

theorem fit_recovers_generating_coefficients:
  assumes "\<forall>t\<in>set x. 0 < t" and "s \<in> set x" and "t \<in> set x" and "s \<noteq> t"
  shows "power_law_fit x (map (\<lambda>t. 3 * t powr (3/2)) x) = Inr (Fin 3, 3/2)"
  using assms by (intro power_law_fit_exact) (simp_all add: representable_moderate)

theorem fit_recovers_generating_coefficients_witness:
  "power_law_fit [2, 4] [3 * 2 powr (3/2), 3 * 4 powr (3/2)] = Inr (Fin 3, 3/2)"
  using fit_recovers_generating_coefficients [of "[2, 4]" 2 4] by simp

text \<open>
  The claim fails without two different abscissae. Two samples at \<open>x = 2\<close> on the same
  curve give \<open>a = sqrt (3 * 2 ** 1.5)\<close>, which is below 2.95, not 3.
\<close>

theorem fit_equal_abscissae:
  "power_law_fit [2, 2] [3 * 2 powr (3/2), 3 * 2 powr (3/2)]
     = Inr (Fin (sqrt (3 * 2 powr (3/2))), ln (3 * 2 powr (3/2)) / (2 * ln 2))
   \<and> sqrt (3 * 2 powr (3/2)) < (59/20 :: real)"
proof -
  let ?y = "3 * (2::real) powr (3/2)"
  have m: "masked [2, 2] [?y, ?y] = [(2, ?y), (2, ?y)]"
    using sample_pos by (simp add: masked_def positive_pair_def)
  have p: "polyfit1 [ln 2, ln 2] [ln ?y, ln ?y] = Inr (ln ?y / (2 * ln 2), ln ?y / 2)"
    by (rule polyfit1_two_equal) simp
  have e: "exp (ln ?y / 2) = sqrt ?y" by (rule exp_half_ln [OF sample_pos])
  have "representable (sqrt ?y)"
    using sample_lower_bound sample_bound by (intro representable_moderate) simp_all
  then have r: "np_exp (ln ?y / 2) = Fin (sqrt ?y)"
    unfolding np_exp_def e by (rule round_range_representable)
  have "power_law_fit [2, 2] [?y, ?y] = Inr (Fin (sqrt ?y), ln ?y / (2 * ln 2))"
    unfolding power_law_fit_def Let_def m using p r by simp
  then show ?thesis using sample_bound by simp
qed

subsection \<open>The positivity mask\<close>

lemma masked_idem: "masked (map fst (masked x y)) (map snd (masked x y)) = masked x y"
  by (simp add: masked_def zip_map_fst_snd)

text \<open>
  Claim C3. For arrays of equal length, the fit of the full data is the fit of the pairs
  whose coordinates are both positive: a pair with \<open>x \<le> 0\<close> or \<open>y \<le> 0\<close> is dropped and
  changes neither the coefficients nor the error of the call.
\<close>

theorem fit_mask:
  "length x = length y \<Longrightarrow>
   power_law_fit x y = power_law_fit (map fst (masked x y)) (map snd (masked x y))"
  by (simp add: power_law_fit_def masked_idem)

theorem fit_mask_witness:
  "power_law_fit [-1, 2, 3, 4] [5, 4, 9, 16] = power_law_fit [2, 3, 4] [4, 9, 16]
   \<and> power_law_fit [2, 3, 4] [4, 9, 16] = Inr (Fin 1, 2)"
proof -
  have "power_law_fit [2, 3, 4] (map (\<lambda>t. 1 * t powr 2) [2, 3, 4]) = Inr (Fin 1, 2)"
    by (rule power_law_fit_exact [where s = 2 and t = 3]) (simp_all add: representable_moderate)
  then have "power_law_fit [2, 3, 4] [4, 9, 16] = Inr (Fin 1, 2)" by simp
  moreover have "power_law_fit [-1, 2, 3, 4] [5, 4, 9, 16] = power_law_fit [2, 3, 4] [4, 9, 16]"
    using fit_mask [of "[-1, 2, 3, 4]" "[5, 4, 9, 16]"]
    by (simp add: masked_def positive_pair_def)
  ultimately show ?thesis by simp
qed

subsection \<open>Too few samples\<close>

text \<open>
  Claim C4, as the code has it. When no pair survives the mask, \<^verbatim>\<open>np.polyfit\<close> raises
  TypeError out of \<^verbatim>\<open>power_law_fit\<close>. The script defines no InsufficientDataError and
  does not count the survivors.
\<close>

theorem fit_no_survivor:
  "length x = length y \<Longrightarrow> masked x y = [] \<Longrightarrow> power_law_fit x y = Inl TypeError"
  by (simp add: power_law_fit_def polyfit1_def)

theorem fit_no_survivor_witness:
  "power_law_fit [-1, 0, 3] [5, 2, 0] = Inl TypeError"
  using fit_no_survivor [of "[-1, 0, 3]" "[5, 2, 0]"]
  by (simp add: masked_def positive_pair_def)

text \<open>
  With exactly one surviving pair the call does not fail: \<open>(2, 4)\<close> alone is fitted
  as \<open>a = 2\<close>, \<open>b = 1\<close>.
\<close>

theorem fit_single_point: "power_law_fit [2] [4] = Inr (Fin 2, 1)"
proof -
  have m: "masked [2] [4] = [(2, 4)]" by (simp add: masked_def positive_pair_def)
  have p: "polyfit1 [ln 2] [ln 4] = Inr (ln 4 / (2 * ln 2), ln 4 / 2)"
    by (rule polyfit1_single) simp
  have "exp (ln (4::real) / 2) = 2" unfolding ln4 by simp
  then have e: "np_exp (ln (4::real) / 2) = Fin 2"
    by (simp add: np_exp_def round_range_representable representable_moderate)
  have s: "ln (4::real) / (2 * ln 2) = 1" unfolding ln4 by simp
  show ?thesis
    unfolding power_law_fit_def Let_def m using p e s by simp
qed


subsection \<open>The first coefficient\<close>












section \<open>Building the coefficient table\<close>

subsection \<open>A missing load column\<close>

text \<open>
  Claim C10. When the columns lack the independent-variable column, the build fails
  with KeyError before the loop over the targets: no table is returned and no target is
  fitted.
\<close>

theorem build_needs_indep:
  "data indep = None \<Longrightarrow> build_coeff data indep targets = Inl KeyError"
  by (simp add: build_coeff_def)

theorem build_needs_indep_witness:
  "build_coeff [''RX'' \<mapsto> [1, 2]] ''log generation'' main_targets = Inl KeyError"
  using build_needs_indep [of "[''RX'' \<mapsto> [1, 2]]" "''log generation''" main_targets] by simp

subsection \<open>A fit that raises\<close>

lemma fit_targets_raises:
  "name \<in> set targets \<Longrightarrow> data name = Some y \<Longrightarrow> power_law_fit x y = Inl e
   \<Longrightarrow> \<exists>e'. fit_targets x data targets (coeff, out) = Inl e'"
proof (induction targets arbitrary: coeff out)
  case Nil
  then show ?case by simp
next
  case (Cons n rest)
  show ?case
  proof (cases "data n")
    case None
    with Cons.prems have "name \<in> set rest" by auto
    with Cons.IH Cons.prems None show ?thesis by simp
  next
    case (Some y')
    show ?thesis
    proof (cases "power_law_fit x y'")
      case (Inl e'')
      with Some show ?thesis by simp
    next
      case (Inr ab)
      with Some Cons.prems have "name \<in> set rest" by auto
      with Cons.IH Cons.prems Some Inr show ?thesis by simp
    qed
  qed
qed

text \<open>
  Claim C5, as the code has it. Nothing in the loop catches an exception of
  \<^verbatim>\<open>power_law_fit\<close>: when the fit of a target column that is present raises, the build
  as a whole ends with an exception and returns no table.
\<close>

theorem build_aborts_on_failed_fit:
  "data indep = Some x \<Longrightarrow> name \<in> set targets \<Longrightarrow> data name = Some y
   \<Longrightarrow> power_law_fit x y = Inl e
   \<Longrightarrow> \<exists>e'. build_coeff data indep targets = Inl e'"
  by (simp add: build_coeff_def fit_targets_raises)

theorem build_aborts_on_failed_fit_witness:
  "\<exists>e'. build_coeff [''log generation'' \<mapsto> [2, 4], ''RX'' \<mapsto> [0, 0], ''TX'' \<mapsto> [4, 2]]
      ''log generation'' main_targets = Inl e'"
  using build_aborts_on_failed_fit [of
    "[''log generation'' \<mapsto> [2, 4], ''RX'' \<mapsto> [0, 0], ''TX'' \<mapsto> [4, 2]]"
    "''log generation''" "[2, 4]" "''RX''" main_targets "[0, 0]" TypeError]
  by (simp add: fit_zero_column main_targets_def)

text \<open>
  The failure is not confined to one metric: a column \<^verbatim>\<open>RX\<close> of zeros aborts the
  script's build although \<^verbatim>\<open>TX\<close> could be fitted.
\<close>

theorem build_aborted_example:
  "main_coeff [''log generation'' \<mapsto> [2, 4], ''RX'' \<mapsto> [0, 0], ''TX'' \<mapsto> [4, 2]] = Inl TypeError"
  by (simp add: main_coeff_def build_coeff_def main_targets_def fit_zero_column)

subsection \<open>What the loop stores\<close>

lemma fit_targets_returns:
  "\<forall>name\<in>set targets. \<forall>y. data name = Some y \<longrightarrow> (\<exists>r. power_law_fit x y = Inr r)
   \<Longrightarrow> \<exists>coeff'. fit_targets x data targets (coeff, out)
        = Inr (coeff', out @ map MissingColumn (filter (\<lambda>name. data name = None) targets))"
proof (induction targets arbitrary: coeff out)
  case Nil
  then show ?case by simp
next
  case (Cons n rest)
  have rest: "\<forall>name\<in>set rest. \<forall>y. data name = Some y \<longrightarrow> (\<exists>r. power_law_fit x y = Inr r)"
    using Cons.prems by simp
  show ?case
  proof (cases "data n")
    case None
    have "\<exists>coeff'. fit_targets x data rest (coeff, out @ [MissingColumn n])
            = Inr (coeff', (out @ [MissingColumn n]) @ map MissingColumn (filter (\<lambda>name. data name = None) rest))"
      by (rule Cons.IH [OF rest])
    with None show ?thesis by simp
  next
    case (Some y)
    with Cons.prems obtain r where r: "power_law_fit x y = Inr r" by auto
    have "\<exists>coeff'. fit_targets x data rest (coeff(lower n \<mapsto> r), out)
            = Inr (coeff', out @ map MissingColumn (filter (\<lambda>name. data name = None) rest))"
      by (rule Cons.IH [OF rest])
    with Some r show ?thesis by simp
  qed
qed

lemma fit_targets_dom:
  "fit_targets x data targets (coeff, out) = Inr (coeff', out')
   \<Longrightarrow> dom coeff' = dom coeff \<union> lower ` {name \<in> set targets. data name \<noteq> None}"
proof (induction targets arbitrary: coeff out)
  case Nil
  then show ?case by simp
next
  case (Cons n rest)
  show ?case
  proof (cases "data n")
    case None
    with Cons.prems have "fit_targets x data rest (coeff, out @ [MissingColumn n]) = Inr (coeff', out')"
      by simp
    then have "dom coeff' = dom coeff \<union> lower ` {name \<in> set rest. data name \<noteq> None}"
      by (rule Cons.IH)
    with None show ?thesis by auto
  next
    case (Some y)
    show ?thesis
    proof (cases "power_law_fit x y")
      case (Inl e)
      with Some Cons.prems show ?thesis by simp
    next
      case (Inr ab)
      with Some Cons.prems have "fit_targets x data rest (coeff(lower n \<mapsto> ab), out) = Inr (coeff', out')"
        by simp
      then have "dom coeff' = dom (coeff(lower n \<mapsto> ab)) \<union> lower ` {name \<in> set rest. data name \<noteq> None}"
        by (rule Cons.IH)
      with Some show ?thesis by auto
    qed
  qed
qed

lemma fit_targets_frame:
  "fit_targets x data targets (coeff, out) = Inr (coeff', out')
   \<Longrightarrow> k \<notin> lower ` {name \<in> set targets. data name \<noteq> None} \<Longrightarrow> coeff' k = coeff k"
proof (induction targets arbitrary: coeff out)
  case Nil
  then show ?case by simp
next
  case (Cons n rest)
  have k: "k \<notin> lower ` {name \<in> set rest. data name \<noteq> None}" using Cons.prems(2) by auto
  show ?case
  proof (cases "data n")
    case None
    with Cons.prems have "fit_targets x data rest (coeff, out @ [MissingColumn n]) = Inr (coeff', out')"
      by simp
    from Cons.IH [OF this k] show ?thesis .
  next
    case (Some y)
    then have kn: "k \<noteq> lower n" using Cons.prems(2) by auto
    show ?thesis
    proof (cases "power_law_fit x y")
      case (Inl e)
      with Some Cons.prems show ?thesis by simp
    next
      case (Inr ab)
      with Some Cons.prems have "fit_targets x data rest (coeff(lower n \<mapsto> ab), out) = Inr (coeff', out')"
        by simp
      then have "coeff' k = (coeff(lower n \<mapsto> ab)) k"
        using k by (rule Cons.IH)
      with kn show ?thesis by simp
    qed
  qed
qed

lemma fit_targets_stores_last:
  "fit_targets x data (pre @ name # post) (coeff, out) = Inr (coeff', out')
   \<Longrightarrow> data name = Some y \<Longrightarrow> power_law_fit x y = Inr r
   \<Longrightarrow> \<forall>other\<in>set post. data other \<noteq> None \<longrightarrow> lower other \<noteq> lower name
   \<Longrightarrow> coeff' (lower name) = Some r"
proof (induction pre arbitrary: coeff out)
  case Nil
  then have step: "fit_targets x data post (coeff(lower name \<mapsto> r), out) = Inr (coeff', out')"
    by simp
  have "lower name \<notin> lower ` {other \<in> set post. data other \<noteq> None}"
    using Nil.prems(4) by force
  with step have "coeff' (lower name) = (coeff(lower name \<mapsto> r)) (lower name)"
    by (rule fit_targets_frame)
  then show ?case by simp
next
  case (Cons n pre)
  show ?case
  proof (cases "data n")
    case None
    with Cons.prems(1)
    have "fit_targets x data (pre @ name # post) (coeff, out @ [MissingColumn n]) = Inr (coeff', out')"
      by simp
    then show ?thesis
      using Cons.prems(2) Cons.prems(3) Cons.prems(4) by (rule Cons.IH)
  next
    case (Some y')
    show ?thesis
    proof (cases "power_law_fit x y'")
      case (Inl e)
      with Some Cons.prems(1) show ?thesis by simp
    next
      case (Inr ab)
      with Some Cons.prems(1)
      have "fit_targets x data (pre @ name # post) (coeff(lower n \<mapsto> ab), out) = Inr (coeff', out')"
        by simp
      then show ?thesis
        using Cons.prems(2) Cons.prems(3) Cons.prems(4) by (rule Cons.IH)
    qed
  qed
qed

text \<open>
  Claim C6, as the code has it. When the load column is present and the fit of every
  target that is a column succeeds, the build returns a table and one notice for each
  target that is not a column, in order. The keys of the table are exactly the
  lower-cased names of the targets that are columns. Each such target has its own fit
  stored under its lower-cased name, unless a later target that is a column has the same
  lower-cased name and overwrites it.
\<close>

theorem build_stores_lowercased:
  assumes indep: "data indep = Some x"
    and ok: "\<forall>name\<in>set targets. \<forall>y. data name = Some y \<longrightarrow> (\<exists>r. power_law_fit x y = Inr r)"
  shows "\<exists>coeff.
           build_coeff data indep targets
             = Inr (coeff, map MissingColumn (filter (\<lambda>name. data name = None) targets))
         \<and> dom coeff = lower ` {name \<in> set targets. data name \<noteq> None}
         \<and> (\<forall>pre name post y r.
               targets = pre @ name # post \<longrightarrow> data name = Some y
               \<longrightarrow> power_law_fit x y = Inr r
               \<longrightarrow> (\<forall>other\<in>set post. data other \<noteq> None \<longrightarrow> lower other \<noteq> lower name)
               \<longrightarrow> coeff (lower name) = Some r)"
proof -
  from fit_targets_returns [OF ok, of Map.empty "[]"]
  obtain coeff where run:
    "fit_targets x data targets (Map.empty, [])
       = Inr (coeff, map MissingColumn (filter (\<lambda>name. data name = None) targets))"
    by auto
  have b: "build_coeff data indep targets
             = Inr (coeff, map MissingColumn (filter (\<lambda>name. data name = None) targets))"
    using indep run by (simp add: build_coeff_def)
  have d: "dom coeff = lower ` {name \<in> set targets. data name \<noteq> None}"
    using fit_targets_dom [OF run] by simp
  have s: "\<forall>pre name post y r.
               targets = pre @ name # post \<longrightarrow> data name = Some y
               \<longrightarrow> power_law_fit x y = Inr r
               \<longrightarrow> (\<forall>other\<in>set post. data other \<noteq> None \<longrightarrow> lower other \<noteq> lower name)
               \<longrightarrow> coeff (lower name) = Some r"
  proof (intro allI impI)
    fix pre name post y r
    assume t: "targets = pre @ name # post" and y: "data name = Some y"
      and r: "power_law_fit x y = Inr r"
      and l: "\<forall>other\<in>set post. data other \<noteq> None \<longrightarrow> lower other \<noteq> lower name"
    from run have "fit_targets x data (pre @ name # post) (Map.empty, [])
       = Inr (coeff, map MissingColumn (filter (\<lambda>name. data name = None) targets))"
      unfolding t .
    then show "coeff (lower name) = Some r" using y r l by (rule fit_targets_stores_last)
  qed
  from b d s show ?thesis by blast
qed

theorem build_stores_lowercased_witness:
  "\<exists>coeff.
     build_coeff [''log generation'' \<mapsto> [2, 4], ''RX'' \<mapsto> [4, 16]] ''log generation''
         [''RX'', ''missing_col'']
       = Inr (coeff, [MissingColumn ''missing_col''])
     \<and> dom coeff = {''rx''} \<and> coeff ''rx'' = Some (Fin 1, 2)"
proof -
  let ?data = "[''log generation'' \<mapsto> [2, 4], ''RX'' \<mapsto> [4, 16 :: real]]"
  let ?targets = "[''RX'', ''missing_col'']"
  have ok: "\<forall>name\<in>set ?targets. \<forall>y. ?data name = Some y
              \<longrightarrow> (\<exists>r. power_law_fit [2, 4] y = Inr r)"
    by (simp add: fit_square_example)
  have indep: "?data ''log generation'' = Some [2, 4]" by simp
  from build_stores_lowercased [OF indep ok]
  obtain coeff where
    b: "build_coeff ?data ''log generation'' ?targets
          = Inr (coeff, map MissingColumn (filter (\<lambda>name. ?data name = None) ?targets))"
    and d: "dom coeff = lower ` {name \<in> set ?targets. ?data name \<noteq> None}"
    and s: "\<forall>pre name post y r.
               ?targets = pre @ name # post \<longrightarrow> ?data name = Some y
               \<longrightarrow> power_law_fit [2, 4] y = Inr r
               \<longrightarrow> (\<forall>other\<in>set post. ?data other \<noteq> None \<longrightarrow> lower other \<noteq> lower name)
               \<longrightarrow> coeff (lower name) = Some r"
    by (elim exE conjE) (rule that, assumption+)
  have b': "build_coeff ?data ''log generation'' ?targets
          = Inr (coeff, [MissingColumn ''missing_col''])"
    using b by simp
  have "{name \<in> set ?targets. ?data name \<noteq> None} = {''RX''}" by auto
  with d have d': "dom coeff = {''rx''}" by (simp add: lower_main_targets)
  have "coeff (lower ''RX'') = Some (Fin 1, 2)"
  proof (rule s [rule_format, where pre = "[]" and post = "[''missing_col'']" and y = "[4, 16]"])
    show "?targets = [] @ ''RX'' # [''missing_col'']" by simp
    show "?data ''RX'' = Some [4, 16]" by simp
    show "power_law_fit [2, 4] [4, 16] = Inr (Fin 1, 2)" by (rule fit_square_example)
    show "lower other \<noteq> lower ''RX''"
      if "other \<in> set [''missing_col'']" and "?data other \<noteq> None" for other
      using that by simp
  qed
  then have s': "coeff ''rx'' = Some (Fin 1, 2)" by (simp add: lower_main_targets)
  from b' d' s' show ?thesis by blast
qed

text \<open>
  Without the hypothesis on the fits the claim fails: with the same targets and a column
  \<^verbatim>\<open>RX\<close> of zeros, \<^verbatim>\<open>RX\<close> is a column but the build stores nothing and returns no
  table.
\<close>

theorem build_stores_nothing_example:
  "build_coeff [''log generation'' \<mapsto> [2, 4], ''RX'' \<mapsto> [0, 0]] ''log generation''
     [''RX'', ''missing_col''] = Inl TypeError"
  by (simp add: build_coeff_def fit_zero_column)

section \<open>Predictions\<close>

lemma pow_exact_pos: "0 < x \<Longrightarrow> pow_exact x y = x powr y"
proof -
  assume x: "0 < x"
  have "y = of_int \<lfloor>y\<rfloor> \<Longrightarrow> x powi \<lfloor>y\<rfloor> = x powr y"
    using x powr_real_of_int' [of x "\<lfloor>y\<rfloor>"] by simp
  then show ?thesis by (simp add: pow_exact_def)
qed

lemma pow_value_representable: "representable (pow_exact x y) \<Longrightarrow> pow_value x y = pow_exact x y"
  using underflow_lt_min_normal underflow_bound_pos
  by (auto simp add: pow_value_def representable_def)

lemma math_pow_pos:
  "0 < x \<Longrightarrow> representable (x powr y) \<Longrightarrow> math_pow x y = Inr (x powr y)"
proof -
  assume x: "0 < x" and r: "representable (x powr y)"
  have e: "pow_exact x y = x powr y" using x by (rule pow_exact_pos)
  have "\<bar>x powr y\<bar> \<le> max_float" using r max_float_pos by (auto simp add: representable_def)
  moreover have "pow_value x y = x powr y" using r pow_value_representable [of x y] e by simp
  ultimately show ?thesis using x e by (simp add: math_pow_def)
qed

lemma math_pow_zero_neg: "b < 0 \<Longrightarrow> math_pow 0 b = Inl ValueError"
  by (simp add: math_pow_def)

lemma calc_zero_neg:
  "coeff key = Some (a, b) \<Longrightarrow> b < 0 \<Longrightarrow> calc coeff key 0 = Inl ValueError"
  by (simp add: calc_def math_pow_zero_neg)

lemma pow_exact_square: "pow_exact x 2 = x * x"
proof -
  have "(2::real) = of_int \<lfloor>2::real\<rfloor>" by simp
  then show ?thesis by (simp add: pow_exact_def power2_eq_square)
qed

lemma math_pow_overflows: "math_pow (10 ^ 200) 2 = Inl OverflowError"
proof -
  have "max_float < (10::real) ^ 400" by (simp add: max_float_def)
  moreover have "pow_exact (10 ^ 200) 2 = (10::real) ^ 400"
    unfolding pow_exact_square by (simp add: power_add [symmetric])
  ultimately show ?thesis by (simp add: math_pow_def)
qed

lemma calc_square_overflows:
  "coeff key = Some (a, 2) \<Longrightarrow> calc coeff key (10 ^ 200) = Inl OverflowError"
proof -
  assume c: "coeff key = Some (a, 2)"
  have "calc coeff key (10 ^ 200)
          = (case math_pow (10 ^ 200) 2 of Inl e \<Rightarrow> Inl e | Inr p \<Rightarrow> Inr (py_mul a p))"
    unfolding calc_def c by (simp only: option.case prod.case)
  then show ?thesis unfolding math_pow_overflows by (simp only: sum.case)
qed




text \<open>
  Claim C7, as the code has it. Whenever \<^verbatim>\<open>math.pow\<close> raises for none of the exponents
  stored under the lower-cased targets, one turn of the loop yields the lines of exactly
  the targets whose lower-cased name is a key of the table, in the order of the target
  list, each with the value that \<^verbatim>\<open>calc\<close> computes; a target that is not a key is
  skipped and raises nothing. The witness takes the loads 10 and 0.
\<close>

theorem predict_all_pairs:
  assumes "\<forall>key\<in>set (map lower targets). \<forall>a b. coeff key = Some (a, b)
             \<longrightarrow> (\<exists>p. math_pow x_val b = Inr p)"
  shows "predict_all coeff targets x_val
     = Inr (map (\<lambda>key. (key,
                        py_mul (fst (the (coeff key))) (pow_value x_val (snd (the (coeff key)))),
                        suffix_of key))
              (filter (\<lambda>key. coeff key \<noteq> None) (map lower targets)))"
  using assms
proof (induction targets)
  case Nil
  then show ?case by simp
next
  case (Cons name rest)
  have rest: "\<forall>key\<in>set (map lower rest). \<forall>a b. coeff key = Some (a, b)
             \<longrightarrow> (\<exists>p. math_pow x_val b = Inr p)"
    using Cons.prems by simp
  note IH = Cons.IH [OF rest]
  show ?case
  proof (cases "coeff (lower name)")
    case None
    with IH show ?thesis by (simp add: Let_def)
  next
    case (Some ab)
    obtain a b where ab: "ab = (a, b)" by (cases ab)
    from Cons.prems Some ab obtain p where p: "math_pow x_val b = Inr p" by auto
    then have "p = pow_value x_val b" by (auto simp add: math_pow_def split: if_splits)
    with p have "calc coeff (lower name) x_val = Inr (py_mul a (pow_value x_val b))"
      using Some ab by (simp add: calc_def)
    with IH Some ab show ?thesis by (simp add: Let_def)
  qed
qed

lemma math_pow_ten_one: "math_pow 10 1 = Inr 10"
  using math_pow_pos [of 10 1] by (simp add: representable_moderate)

lemma math_pow_zero_one: "math_pow 0 1 = Inr 0"
proof -
  have "pow_exact 0 1 = 0" by (simp add: pow_exact_def)
  then show ?thesis using max_float_pos underflow_bound_pos
    by (simp add: math_pow_def pow_value_def)
qed

theorem predict_all_pairs_witness:
  "predict_all [''cpu load'' \<mapsto> (Fin 2, 1)] main_targets 10 = Inr [(''cpu load'', Fin 20, '' CPU'')]
   \<and> predict_all [''cpu load'' \<mapsto> (Fin 2, 1)] main_targets 0 = Inr [(''cpu load'', Fin 0, '' CPU'')]"
proof -
  let ?coeff = "[''cpu load'' \<mapsto> (Fin 2, 1 :: real)]"
  have v10: "pow_value 10 1 = 10" using math_pow_ten_one by (simp add: math_pow_def split: if_splits)
  have v0: "pow_value 0 1 = 0" using math_pow_zero_one by (simp add: math_pow_def split: if_splits)
  have h10: "\<forall>key\<in>set (map lower main_targets). \<forall>a b. ?coeff key = Some (a, b)
             \<longrightarrow> (\<exists>p. math_pow 10 b = Inr p)"
    by (simp add: main_targets_def lower_main_targets math_pow_ten_one)
  have h0: "\<forall>key\<in>set (map lower main_targets). \<forall>a b. ?coeff key = Some (a, b)
             \<longrightarrow> (\<exists>p. math_pow 0 b = Inr p)"
    by (simp add: main_targets_def lower_main_targets math_pow_zero_one)
  have r20: "round_range 20 = Fin 20" by (simp add: round_range_representable representable_moderate)
  have r0: "round_range 0 = Fin 0" by (simp add: round_range_representable representable_def)
  have "predict_all ?coeff main_targets 10
      = Inr (map (\<lambda>key. (key,
                        py_mul (fst (the (?coeff key))) (pow_value 10 (snd (the (?coeff key)))),
                        suffix_of key))
              (filter (\<lambda>key. ?coeff key \<noteq> None) (map lower main_targets)))"
    by (rule predict_all_pairs [OF h10])
  also have "\<dots> = Inr [(''cpu load'', Fin 20, '' CPU'')]"
    by (simp add: main_targets_def lower_main_targets suffix_of_def v10 r20)
  finally have t10: "predict_all ?coeff main_targets 10 = Inr [(''cpu load'', Fin 20, '' CPU'')]" .
  have "predict_all ?coeff main_targets 0
      = Inr (map (\<lambda>key. (key,
                        py_mul (fst (the (?coeff key))) (pow_value 0 (snd (the (?coeff key)))),
                        suffix_of key))
              (filter (\<lambda>key. ?coeff key \<noteq> None) (map lower main_targets)))"
    by (rule predict_all_pairs [OF h0])
  also have "\<dots> = Inr [(''cpu load'', Fin 0, '' CPU'')]"
    by (simp add: main_targets_def lower_main_targets suffix_of_def v0 r0)
  finally have t0: "predict_all ?coeff main_targets 0 = Inr [(''cpu load'', Fin 0, '' CPU'')]" .
  from t10 t0 show ?thesis by (rule conjI)
qed

text \<open>
  Not for every load: at \<open>x = 1e200\<close> with a stored exponent 2, \<^verbatim>\<open>math.pow\<close> raises
  OverflowError, nothing catches it and the turn yields no lines.
\<close>

theorem predict_all_overflows:
  "predict_all [''rx'' \<mapsto> (Fin 1, 2)] [''RX''] (10 ^ 200) = Inl OverflowError"
proof -
  have "calc [''rx'' \<mapsto> (Fin 1, 2)] ''rx'' (10 ^ 200) = Inl OverflowError"
    by (rule calc_square_overflows) simp
  then show ?thesis by (simp add: lower_main_targets Let_def)
qed

text \<open>
  Claim C9 does not hold of the script. A load of 0 with a negative exponent makes
  \<^verbatim>\<open>math.pow\<close> raise ValueError; the call of \<^verbatim>\<open>calc\<close> stands outside the loop's
  \<^verbatim>\<open>try\<close>, so the exception ends \<^verbatim>\<open>main\<close>. Here the table is fitted from a
  decreasing column and the user types 0.
\<close>

theorem zero_load_crashes:
  "main [''log generation'' \<mapsto> [2, 4], ''RX'' \<mapsto> [4, 2]]
        (\<lambda>s. if s = ''0'' then Some 0 else None) [''0'', ''''] = Inl ValueError"
proof -
  have p: "predict_all [''rx'' \<mapsto> (Fin 8, -1)] main_targets 0 = Inl ValueError"
    by (simp add: main_targets_def lower_main_targets calc_zero_neg [of _ _ "Fin 8" "-1"])
  show ?thesis
    by (simp add: main_def main_coeff_example replace_comma_def p)
qed


end
